theory Spec2Isabelle
  imports Main "HOL-Library.Sublist"
begin

section \<open>Cells and Python string operations\<close>

text \<open>
  A cell of the data frame is either missing (\<open>NaN\<close>, \<open>None\<close>, \<open>NaT\<close>: everything
  \<open>pd.isna\<close> accepts) or holds a value. Text cells are modelled by the text \<open>str(val)\<close>
  gives, over ASCII, which is the alphabet of every literal the program compares with.
\<close>

type_synonym cell = "string option"

definition isna :: "'a option \<Rightarrow> bool" where
  "isna v = (v = None)"

definition notna :: "'a option \<Rightarrow> bool" where
  "notna v = (v \<noteq> None)"

text \<open>\<open>str(val)\<close>: a missing value prints as \<open>nan\<close>.\<close>

definition py_str :: "cell \<Rightarrow> string" where
  "py_str v = (case v of None \<Rightarrow> ''nan'' | Some s \<Rightarrow> s)"

text \<open>\<open>sub in s\<close> on strings: \<open>sub\<close> occurs in \<open>s\<close> as a contiguous substring.\<close>

fun py_in :: "string \<Rightarrow> string \<Rightarrow> bool" where
  "py_in sub [] = (sub = [])"
| "py_in sub (c # cs) = (prefix sub (c # cs) \<or> py_in sub cs)"

text \<open>\<open>str.isspace\<close> on one ASCII character: tab, line feed, vertical tab, form feed,
  carriage return, the four separators 0x1C..0x1F and the space.\<close>

definition py_isspace :: "char \<Rightarrow> bool" where
  "py_isspace c = (let n = (of_char c :: nat) in (9 \<le> n \<and> n \<le> 13) \<or> (28 \<le> n \<and> n \<le> 32))"

definition py_strip :: "string \<Rightarrow> string" where
  "py_strip s = rev (dropWhile py_isspace (rev (dropWhile py_isspace s)))"

definition is_upper :: "char \<Rightarrow> bool" where
  "is_upper c = (let n = (of_char c :: nat) in 65 \<le> n \<and> n \<le> 90)"

definition is_lower :: "char \<Rightarrow> bool" where
  "is_lower c = (let n = (of_char c :: nat) in 97 \<le> n \<and> n \<le> 122)"

definition is_digit :: "char \<Rightarrow> bool" where
  "is_digit c = (let n = (of_char c :: nat) in 48 \<le> n \<and> n \<le> 57)"

definition char_lower :: "char \<Rightarrow> char" where
  "char_lower c = (if is_upper c then char_of (of_char c + (32 :: nat)) else c)"

definition char_upper :: "char \<Rightarrow> char" where
  "char_upper c = (if is_lower c then char_of (of_char c - (32 :: nat)) else c)"

definition py_lower :: "string \<Rightarrow> string" where
  "py_lower s = map char_lower s"

section \<open>pipeline.py: the blacklist rule\<close>

text \<open>
  A \<open>pd.Timestamp\<close> is its count of nanoseconds since 1970-01-01; comparison of
  timestamps is comparison of these counts. A column passed through
  \<open>pd.to_datetime(..., errors='coerce')\<close> holds \<open>None\<close> (\<open>NaT\<close>) wherever the text did
  not parse.
\<close>

type_synonym timestamp = int

text \<open>Days from 1970-01-01 to a date of the proleptic Gregorian calendar.\<close>

definition days_from_civil :: "int \<Rightarrow> int \<Rightarrow> int \<Rightarrow> int" where
  "days_from_civil y m d =
     (let y' = (if m \<le> 2 then y - 1 else y);
          era = y' div 400;
          yoe = y' - era * 400;
          mp = (m + 9) mod 12;
          doy = (153 * mp + 2) div 5 + d - 1;
          doe = yoe * 365 + yoe div 4 - yoe div 100 + doy
      in era * 146097 + doe - 719468)"

definition Timestamp :: "int \<Rightarrow> int \<Rightarrow> int \<Rightarrow> timestamp" where
  "Timestamp y m d = days_from_civil y m d * 86400000000000"

definition BLACKLIST_START_DATE :: timestamp where
  "BLACKLIST_START_DATE = Timestamp 2024 6 1"

text \<open>Both programs hold the creation date of a row in the column \<open>created_date\<close>.\<close>

record dated_row =
  created_date :: "timestamp option"

text \<open>The columns of a row that \<open>apply_blacklist_logic\<close> reads and writes.\<close>

record blacklist_row = dated_row +
  blacklist_raw :: cell
  blacklist_parsed :: "int option"
  blacklist_status :: int

definition parse_raw_blacklist :: "cell \<Rightarrow> int option" where
  "parse_raw_blacklist val =
     (if isna val then None
      else let s_val = py_str val in
        if py_in ''green.png'' s_val \<or> s_val = ''1'' then Some 1
        else if py_in ''red.png'' s_val \<or> s_val = ''0'' then Some 0
        else None)"

text \<open>A comparison with \<open>NaT\<close> is false, whichever way it is written.\<close>

definition cond_pre_cutoff :: "blacklist_row \<Rightarrow> bool" where
  "cond_pre_cutoff r =
     (case created_date r of None \<Rightarrow> False | Some d \<Rightarrow> d < BLACKLIST_START_DATE)"

definition cond_post_cutoff_pass :: "blacklist_row \<Rightarrow> bool" where
  "cond_post_cutoff_pass r =
     ((case created_date r of None \<Rightarrow> False | Some d \<Rightarrow> d \<ge> BLACKLIST_START_DATE)
      \<and> blacklist_parsed r = Some 1)"

text \<open>One row through \<open>apply_blacklist_logic\<close>: the default 0, the parsed code, then
  the assignment of 1 under the mask.\<close>

definition blacklist_logic_row :: "blacklist_row \<Rightarrow> blacklist_row" where
  "blacklist_logic_row r0 =
     (let r1 = r0\<lparr>blacklist_status := 0\<rparr>;
          r2 = r1\<lparr>blacklist_parsed := parse_raw_blacklist (blacklist_raw r1)\<rparr>
      in if cond_pre_cutoff r2 \<or> cond_post_cutoff_pass r2
         then r2\<lparr>blacklist_status := 1\<rparr> else r2)"

text \<open>Reading a column the frame does not have raises \<open>KeyError\<close>.\<close>

datatype error = KeyError string

text \<open>\<open>apply_blacklist_logic\<close> on a frame with the given column names: it reads
  \<open>df['created_date']\<close> first, then \<open>df['blacklist_raw']\<close>, and treats every row alike.\<close>

definition apply_blacklist_logic :: "string list \<Rightarrow> blacklist_row list \<Rightarrow> error + blacklist_row list" where
  "apply_blacklist_logic columns df =
     (if ''created_date'' \<notin> set columns then Inl (KeyError ''created_date'')
      else if ''blacklist_raw'' \<notin> set columns then Inl (KeyError ''blacklist_raw'')
      else Inr (map blacklist_logic_row df))"

text \<open>The row filter of \<open>main\<close>: \<open>df[df['blacklist_status'] == 1]\<close>.\<close>

definition filter_blacklist :: "blacklist_row list \<Rightarrow> blacklist_row list" where
  "filter_blacklist df = filter (\<lambda>r. blacklist_status r = 1) df"

section \<open>enrich_leads.py: digital-presence migration\<close>

definition maps_indicators :: "string list" where
  "maps_indicators = [''maps.google'', ''goo.gl/maps'', ''google.com/maps'', ''maps.app.goo.gl'']"

definition social_domains :: "string list" where
  "social_domains =
     [''instagram.com'', ''snapchat.com'', ''youtube.com'', ''facebook.com'',
      ''twitter.com'', ''x.com'', ''linkedin.com'', ''tiktok.com'', ''pinterest.com'']"

definition ecommerce_domains :: "string list" where
  "ecommerce_domains = [''salla.sa'']"

definition is_google_maps_url :: "cell \<Rightarrow> bool" where
  "is_google_maps_url url =
     (if isna url \<or> py_strip (py_str url) = [] then False
      else let url_lower = py_lower (py_str url)
           in list_ex (\<lambda>ind. py_in ind url_lower) maps_indicators)"

definition is_social_media_url :: "cell \<Rightarrow> bool" where
  "is_social_media_url url =
     (if isna url \<or> py_strip (py_str url) = [] then False
      else let url_lower = py_lower (py_str url)
           in list_ex (\<lambda>domain. py_in domain url_lower) social_domains)"

definition is_ecommerce_url :: "cell \<Rightarrow> bool" where
  "is_ecommerce_url url =
     (if isna url \<or> py_strip (py_str url) = [] then False
      else let url_lower = py_lower (py_str url)
           in list_ex (\<lambda>domain. py_in domain url_lower) ecommerce_domains)"

text \<open>
  A row of the frame \<open>enrich_leads.py\<close> works on, with the columns its steps read and
  write. \<open>ecommerce_link\<close> is the column \<open>'e-commerce link'\<close>. The four working columns
  of the migration are created with \<open>NaN\<close> in every row when the input lacks them, and
  the date columns have been through \<open>pd.to_datetime(..., errors='coerce')\<close> before the
  journey stage is read off. A test \<open>'c' in row and pd.notna(row['c'])\<close> on a column the
  frame lacks is the test on a missing cell.
\<close>

record lead = dated_row +
  website :: cell
  google_map_id :: cell
  social_media_links :: cell
  ecommerce_link :: cell
  mobile :: cell
  email :: cell
  onboarding_step :: cell
  kyb_in_progress_date :: "timestamp option"
  kyb_submitted_date :: "timestamp option"
  converted_date :: "timestamp option"
  readable_onboarding_step :: cell

text \<open>The four counters the loop keeps; a counter goes up exactly when its branch runs.\<close>

record counters =
  moved_maps :: nat
  removed_maps :: nat
  moved_social :: nat
  moved_ecommerce :: nat

text \<open>The emptiness test the three branches apply to their target cell:
  \<open>pd.isna(v) or str(v).strip() == '' or str(v).lower() == 'nan'\<close>.\<close>

definition is_cell_empty :: "cell \<Rightarrow> bool" where
  "is_cell_empty v = (isna v \<or> py_strip (py_str v) = [] \<or> py_lower (py_str v) = ''nan'')"

text \<open>
  One iteration of the loop. \<open>row\<close> is the snapshot \<open>iterrows\<close> hands out: every read
  (\<open>site\<close>, \<open>current_map\<close>, \<open>current_social\<close>, \<open>current_ecom\<close>) is from it, while the
  writes of \<open>df.at\<close> go to the frame's row, threaded here as \<open>r\<close>. The maps branch ends
  with \<open>continue\<close>; the social and e-commerce branches are two \<open>if\<close> statements in a row.
\<close>

definition maps_branch :: "lead \<Rightarrow> lead \<times> counters \<Rightarrow> lead \<times> counters" where
  "maps_branch row st =
     (let (r, c) = st;
          site = website row;
          current_map = google_map_id row;
          is_map_empty = is_cell_empty current_map;
          (r, c) = (if is_map_empty
                    then (r\<lparr>google_map_id := site\<rparr>, c\<lparr>moved_maps := moved_maps c + 1\<rparr>)
                    else (r, c))
      in (r\<lparr>website := None\<rparr>, c\<lparr>removed_maps := removed_maps c + 1\<rparr>))"

definition social_branch :: "lead \<Rightarrow> lead \<times> counters \<Rightarrow> lead \<times> counters" where
  "social_branch row st =
     (let (r, c) = st;
          site = website row;
          current_social = social_media_links row;
          is_social_empty = is_cell_empty current_social;
          r = (if is_social_empty
               then r\<lparr>social_media_links := site\<rparr>
               else r\<lparr>social_media_links := Some (py_str current_social @ '' | '' @ py_str site)\<rparr>)
      in (r\<lparr>website := None\<rparr>, c\<lparr>moved_social := moved_social c + 1\<rparr>))"

definition ecommerce_branch :: "lead \<Rightarrow> lead \<times> counters \<Rightarrow> lead \<times> counters" where
  "ecommerce_branch row st =
     (let (r, c) = st;
          site = website row;
          current_ecom = ecommerce_link row;
          is_ecom_empty = is_cell_empty current_ecom;
          r = (if is_ecom_empty
               then r\<lparr>ecommerce_link := site\<rparr>
               else r\<lparr>ecommerce_link := Some (py_str current_ecom @ '' | '' @ py_str site)\<rparr>)
      in (r\<lparr>website := None\<rparr>, c\<lparr>moved_ecommerce := moved_ecommerce c + 1\<rparr>))"

definition migrate_row :: "lead \<Rightarrow> counters \<Rightarrow> lead \<times> counters" where
  "migrate_row row c =
     (let site = website row in
      if is_google_maps_url site then maps_branch row (row, c)
      else
        let st = (if is_social_media_url site then social_branch row (row, c) else (row, c))
        in if is_ecommerce_url site then ecommerce_branch row st else st)"

text \<open>The loop over the frame, rows in order, the counters carried along.\<close>

fun migrate :: "lead list \<Rightarrow> counters \<Rightarrow> lead list \<times> counters" where
  "migrate [] c = ([], c)"
| "migrate (row # rows) c =
     (let (r, c1) = migrate_row row c;
          (rs, c2) = migrate rows c1
      in (r # rs, c2))"

definition zero_counters :: counters where
  "zero_counters = \<lparr>moved_maps = 0, removed_maps = 0, moved_social = 0, moved_ecommerce = 0\<rparr>"

section \<open>enrich_leads.py: journey tracking\<close>

text \<open>
  A match of the regular expression \<open>v\d+_\<close> at the start of a string: the letter
  \<open>v\<close>, then every digit that follows (one at least), then an underscore. The result is
  what is left after the match. The greedy \<open>\d+\<close> has nothing to give back: a shorter
  run of digits is followed by a digit, never by the underscore.
\<close>

definition match_version :: "string \<Rightarrow> string option" where
  "match_version s =
     (case s of
        [] \<Rightarrow> None
      | c # cs \<Rightarrow>
          if c = CHR ''v'' \<and> takeWhile is_digit cs \<noteq> [] then
            (case dropWhile is_digit cs of
               [] \<Rightarrow> None
             | u # rest \<Rightarrow> if u = CHR ''_'' then Some rest else None)
          else None)"

lemma match_version_shorter: "match_version s = Some rest \<Longrightarrow> length rest < length s"
proof -
  assume m: "match_version s = Some rest"
  then obtain c cs where s: "s = c # cs"
    by (cases s) (simp_all add: match_version_def)
  from m s have "dropWhile is_digit cs = CHR ''_'' # rest"
    by (auto simp: match_version_def split: if_splits list.splits)
  then have "length (CHR ''_'' # rest) \<le> length cs"
    by (metis length_dropWhile_le)
  with s show ?thesis by simp
qed

text \<open>\<open>re.sub(r'v\d+_', '', s)\<close>: one pass from the left; a match is dropped and the
  scan goes on behind it, any other character is kept.\<close>

function re_sub_version :: "string \<Rightarrow> string" where
  "re_sub_version [] = []"
| "re_sub_version (c # cs) =
     (case match_version (c # cs) of
        Some rest \<Rightarrow> re_sub_version rest
      | None \<Rightarrow> c # re_sub_version cs)"
  by pat_completeness auto
termination
  by (relation "measure length") (auto dest: match_version_shorter)

text \<open>\<open>s.replace(old, new)\<close> for a non-empty \<open>old\<close>: the occurrences found from the
  left, none overlapping another.\<close>

function replace_from :: "string \<Rightarrow> string \<Rightarrow> string \<Rightarrow> string" where
  "replace_from old new [] = []"
| "replace_from old new (c # cs) =
     (if old \<noteq> [] \<and> prefix old (c # cs)
      then new @ replace_from old new (drop (length old) (c # cs))
      else c # replace_from old new cs)"
  by pat_completeness auto
termination
  by (relation "measure (\<lambda>(old, new, s). length s)") auto

text \<open>With an empty \<open>old\<close>, Python puts \<open>new\<close> before every character and at the end.\<close>

definition py_replace :: "string \<Rightarrow> string \<Rightarrow> string \<Rightarrow> string" where
  "py_replace old new s =
     (if old = [] then new @ concat (map (\<lambda>c. c # new) s) else replace_from old new s)"

text \<open>\<open>str.title\<close>: a cased character is put in upper case when the character before it
  is not cased (or there is none) and in lower case otherwise.\<close>

definition is_cased :: "char \<Rightarrow> bool" where
  "is_cased c = (is_upper c \<or> is_lower c)"

fun title_from :: "bool \<Rightarrow> string \<Rightarrow> string" where
  "title_from previous_is_cased [] = []"
| "title_from previous_is_cased (c # cs) =
     (if previous_is_cased then char_lower c else char_upper c) # title_from (is_cased c) cs"

definition py_title :: "string \<Rightarrow> string" where
  "py_title s = title_from False s"

definition clean_step_name :: "cell \<Rightarrow> cell" where
  "clean_step_name val =
     (if isna val \<or> val = Some [] then None
      else let v1 = py_lower (py_str val);
               v2 = re_sub_version v1
           in Some (py_title (py_replace ''_'' '' '' (py_replace ''_step'' [] v2))))"

text \<open>\<open>df['readable_onboarding_step']\<close>: the cleaned step of each row; where the frame
  has no column \<open>onboarding_step\<close> the new column is \<open>NaN\<close>, which is also what
  \<open>clean_step_name\<close> gives on a missing cell.\<close>

definition add_readable_step :: "lead \<Rightarrow> lead" where
  "add_readable_step r = r\<lparr>readable_onboarding_step := clean_step_name (onboarding_step r)\<rparr>"

definition get_journey_stage :: "lead \<Rightarrow> string" where
  "get_journey_stage row =
     (if notna (converted_date row) then ''Converted''
      else if notna (kyb_submitted_date row) then ''KYB Submitted''
      else if notna (kyb_in_progress_date row) then ''KYB In Progress''
      else
        let step = readable_onboarding_step row in
        if notna step then
          (if py_in ''Final'' (py_str step) then ''Onboarding Completed''
           else ''Onboarding: '' @ py_str step)
        else if notna (created_date row) then ''Registered''
        else ''Unknown'')"

subsection \<open>The nine step flags\<close>

definition step_config :: "(string \<times> string list) list" where
  "step_config =
     [(''otp_sign_up_confirmation_step'', [''otp_sign_up_confirmation_step'']),
      (''business_info_step'', [''business_info_step'']),
      (''v2_personal_details_step'', [''v2_personal_details_step'']),
      (''v2_business_details_step'', [''v2_business_details_step'']),
      (''kyc_step'', [''kyc_step'']),
      (''v2_bank_details_step'', [''v2_bank_details_step'']),
      (''review_application_step'', [''review_application_step'']),
      (''v3_sign_contract_step'', [''v3_sign_contract_step'']),
      (''final_step'', [''v2_final_step'', ''v3_final_step''])]"

definition check_step :: "cell \<Rightarrow> string list \<Rightarrow> int" where
  "check_step val valid_steps =
     (if isna val then 0
      else if py_strip (py_str val) \<in> set valid_steps then 1 else 0)"

text \<open>The flags of one row, in the order of \<open>step_config\<close>, each with its column name.\<close>

definition step_flags :: "cell \<Rightarrow> (string \<times> int) list" where
  "step_flags x = map (\<lambda>(col_name, steps). (col_name, check_step x steps)) step_config"

text \<open>The loop over \<open>step_config\<close> reads \<open>df['onboarding_step']\<close> without a test for the
  column, so a frame without it stops with \<open>KeyError\<close>.\<close>

definition add_step_flags :: "string list \<Rightarrow> lead list \<Rightarrow> error + (string \<times> int) list list" where
  "add_step_flags columns df =
     (if ''onboarding_step'' \<notin> set columns then Inl (KeyError ''onboarding_step'')
      else Inr (map (\<lambda>r. step_flags (onboarding_step r)) df))"

section \<open>enrich_leads.py: removing duplicates\<close>

text \<open>\<open>df.duplicated(subset=[col], keep='first')\<close>: a row is marked when an earlier row
  has the same value in the column; two missing values count as the same value.\<close>

fun duplicated_from :: "'k list \<Rightarrow> 'k list \<Rightarrow> bool list" where
  "duplicated_from seen [] = []"
| "duplicated_from seen (v # vs) = (v \<in> set seen) # duplicated_from (v # seen) vs"

definition duplicated :: "'k list \<Rightarrow> bool list" where
  "duplicated vs = duplicated_from [] vs"

text \<open>\<open>df[~mask]\<close>: the rows whose mask entry is false, in order.\<close>

definition drop_masked :: "'a list \<Rightarrow> bool list \<Rightarrow> 'a list" where
  "drop_masked df msk = map fst (filter (\<lambda>(r, m). \<not> m) (zip df msk))"

text \<open>One pass on the column read by \<open>col\<close>:
  \<open>mask = df.duplicated(subset=[c], keep='first') & df[c].notna()\<close>, then \<open>df = df[~mask]\<close>.\<close>

definition dedup_pass :: "('a \<Rightarrow> 'k option) \<Rightarrow> 'a list \<Rightarrow> 'a list" where
  "dedup_pass col df =
     (let row_mask = map2 (\<lambda>d n. d \<and> n) (duplicated (map col df)) (map (\<lambda>r. notna (col r)) df)
      in drop_masked df row_mask)"

text \<open>The two passes, each under its test that the frame has the column.\<close>

definition remove_duplicates :: "string list \<Rightarrow> lead list \<Rightarrow> lead list" where
  "remove_duplicates columns df =
     (let df1 = (if ''mobile'' \<in> set columns then dedup_pass mobile df else df);
          df2 = (if ''email'' \<in> set columns then dedup_pass email df1 else df1)
      in df2)"

subsection \<open>The step-name cleanup in the words of the specification\<close>

text \<open>
  The specification words the cleanup as: lower-case the code, strip one leading version
  prefix \<open>v<digits>_\<close>, remove a trailing \<open>_step\<close>, replace underscores with spaces,
  title-case. \<open>clean_step_name_spec\<close> is that reading, kept apart from
  \<open>clean_step_name\<close>, which is the code; the two are compared below.
\<close>

definition strip_leading_version :: "string \<Rightarrow> string" where
  "strip_leading_version s = (case match_version s of Some rest \<Rightarrow> rest | None \<Rightarrow> s)"

definition remove_trailing_step :: "string \<Rightarrow> string" where
  "remove_trailing_step s =
     (if suffix ''_step'' s then take (length s - length ''_step'') s else s)"

definition clean_step_name_spec :: "cell \<Rightarrow> cell" where
  "clean_step_name_spec val =
     (if isna val \<or> val = Some [] then None
      else Some (py_title (py_replace ''_'' '' ''
             (remove_trailing_step (strip_leading_version (py_lower (py_str val)))))))"

text \<open>
  The frame \<open>main\<close> removes duplicates from comes from \<open>pd.read_csv(input_path,
  low_memory=False)\<close> and nothing writes the columns \<open>mobile\<close> and \<open>email\<close> before the
  passes. With its default handling of missing values \<open>read_csv\<close> reads an empty field
  as \<open>NaN\<close>, so a cell of such a frame is never the empty string.
\<close>

definition from_read_csv :: "cell \<Rightarrow> bool" where
  "from_read_csv v = (v \<noteq> Some [])"

text \<open>The same pass written as one recursion over the rows, with the values met so far;
  the proofs below go through it.\<close>

fun dedup_from :: "('a \<Rightarrow> 'k option) \<Rightarrow> 'k option list \<Rightarrow> 'a list \<Rightarrow> 'a list" where
  "dedup_from col seen [] = []"
| "dedup_from col seen (r # rs) =
     (if col r \<in> set seen \<and> col r \<noteq> None then dedup_from col (col r # seen) rs
      else r # dedup_from col (col r # seen) rs)"

text \<open>The values of a column that are not missing, in row order.\<close>

definition non_null_keys :: "('a \<Rightarrow> 'k option) \<Rightarrow> 'a list \<Rightarrow> 'k option list" where
  "non_null_keys col df = filter (\<lambda>k. k \<noteq> None) (map col df)"

text \<open>A row with every cell missing, from which the example rows below are built.\<close>

definition empty_lead :: lead where
  "empty_lead =
     \<lparr>created_date = None, website = None, google_map_id = None, social_media_links = None,
      ecommerce_link = None, mobile = None, email = None, onboarding_step = None,
      kyb_in_progress_date = None, kyb_submitted_date = None, converted_date = None,
      readable_onboarding_step = None\<rparr>"

section \<open>Facts about the string operations\<close>

lemma py_in_iff_sublist: "py_in sub s \<longleftrightarrow> sublist sub s"
  by (induction s) (simp_all add: sublist_Cons_right)

lemma BLACKLIST_START_DATE_value: "BLACKLIST_START_DATE = 1717200000 * 1000000000"
  by (simp add: BLACKLIST_START_DATE_def Timestamp_def days_from_civil_def)

section \<open>The blacklist rule\<close>

lemma parse_raw_blacklist_passed:
  "parse_raw_blacklist raw = Some 1 \<longleftrightarrow>
     (\<exists>s. raw = Some s \<and> (py_in ''green.png'' s \<or> s = ''1''))"
  by (cases raw) (simp_all add: parse_raw_blacklist_def isna_def py_str_def Let_def)

lemma parse_raw_blacklist_failed:
  "parse_raw_blacklist raw = Some 0 \<longleftrightarrow>
     (\<exists>s. raw = Some s \<and> \<not> (py_in ''green.png'' s \<or> s = ''1'')
          \<and> (py_in ''red.png'' s \<or> s = ''0''))"
  by (cases raw) (simp_all add: parse_raw_blacklist_def isna_def py_str_def Let_def)

lemma parse_raw_blacklist_unknown:
  "parse_raw_blacklist raw = None \<longleftrightarrow>
     (parse_raw_blacklist raw \<noteq> Some 1 \<and> parse_raw_blacklist raw \<noteq> Some 0)"
  by (cases raw) (simp_all add: parse_raw_blacklist_def isna_def py_str_def Let_def)

lemma blacklist_logic_row_status:
  "blacklist_status (blacklist_logic_row r) =
     (case created_date r of
        None \<Rightarrow> 0
      | Some d \<Rightarrow>
          if d < BLACKLIST_START_DATE then 1
          else if parse_raw_blacklist (blacklist_raw r) = Some 1 then 1 else 0)"
  by (cases "created_date r")
     (auto simp: blacklist_logic_row_def cond_pre_cutoff_def cond_post_cutoff_pass_def Let_def)

lemma apply_blacklist_logic_rows:
  "''created_date'' \<in> set columns \<Longrightarrow> ''blacklist_raw'' \<in> set columns \<Longrightarrow>
     apply_blacklist_logic columns df = Inr (map blacklist_logic_row df)"
  by (simp add: apply_blacklist_logic_def)

text \<open>A row whose creation date is missing (a date that did not parse is missing too)
  satisfies neither \<open>created_date < BLACKLIST_START_DATE\<close> nor
  \<open>created_date >= BLACKLIST_START_DATE\<close>, so it keeps the default 0 on every frame with
  the two columns, whatever its raw check code is.\<close>

lemma blacklist_status_null_date:
  assumes "''created_date'' \<in> set columns" and "''blacklist_raw'' \<in> set columns"
    and "i < length df" and "created_date (df ! i) = None"
  shows "\<exists>out. apply_blacklist_logic columns df = Inr out \<and> length out = length df \<and>
           blacklist_status (out ! i) = 0"
  using assms by (simp add: apply_blacklist_logic_rows blacklist_logic_row_status)

text \<open>
  Claim C1 gives a row without a creation date the status 1. The docstring of
  \<open>apply_blacklist_logic\<close> keeps a lead after the cutoff when its check result is 1 and
  every lead before it, and the requirement quoted in the function drops only leads
  created after June 2024 that failed the check. The two masks leave out the row whose
  date is missing. Here is the frame of one such row with the raw code \<open>1\<close>: the code
  parses to passed, the status stays 0, and the row filter of \<open>main\<close> drops the lead.
\<close>

theorem null_date_passed_lead_dropped:
  "apply_blacklist_logic [''created_date'', ''blacklist_raw'']
     [\<lparr>created_date = None, blacklist_raw = Some ''1'',
       blacklist_parsed = None, blacklist_status = 0\<rparr>]
   = Inr [\<lparr>created_date = None, blacklist_raw = Some ''1'',
           blacklist_parsed = Some 1, blacklist_status = 0\<rparr>] \<and>
   filter_blacklist [\<lparr>created_date = None, blacklist_raw = Some ''1'',
           blacklist_parsed = Some 1, blacklist_status = 0\<rparr>] = []"
  by (simp add: apply_blacklist_logic_def blacklist_logic_row_def cond_pre_cutoff_def
        cond_post_cutoff_pass_def parse_raw_blacklist_def isna_def py_str_def
        filter_blacklist_def)

text \<open>
  Claim C6. On a frame with the two columns, a row with a creation date \<open>d\<close> gets
  \<open>blacklist_status\<close> 1 when \<open>d\<close> is before 2024-06-01; from 2024-06-01 00:00 on it gets
  1 when the raw code parses to passed (1) and 0 when it parses to failed (0) or to
  unknown (\<open>None\<close>). The raw code parses to passed exactly when it contains
  \<open>green.png\<close> or is \<open>1\<close>; to failed exactly when it does not and contains \<open>red.png\<close> or
  is \<open>0\<close>; to unknown in every other case.
\<close>

theorem blacklist_status_by_date:
  assumes "''created_date'' \<in> set columns" and "''blacklist_raw'' \<in> set columns"
    and "i < length df" and "created_date (df ! i) = Some d"
  shows "\<exists>out. apply_blacklist_logic columns df = Inr out \<and> length out = length df \<and>
           (d < BLACKLIST_START_DATE \<longrightarrow> blacklist_status (out ! i) = 1) \<and>
           (BLACKLIST_START_DATE \<le> d \<longrightarrow>
              blacklist_status (out ! i) =
                (if parse_raw_blacklist (blacklist_raw (df ! i)) = Some 1 then 1 else 0)) \<and>
           (parse_raw_blacklist (blacklist_raw (df ! i)) = Some 1 \<longleftrightarrow>
              (\<exists>s. blacklist_raw (df ! i) = Some s \<and> (py_in ''green.png'' s \<or> s = ''1''))) \<and>
           (parse_raw_blacklist (blacklist_raw (df ! i)) = Some 0 \<longleftrightarrow>
              (\<exists>s. blacklist_raw (df ! i) = Some s \<and> \<not> (py_in ''green.png'' s \<or> s = ''1'')
                   \<and> (py_in ''red.png'' s \<or> s = ''0''))) \<and>
           (parse_raw_blacklist (blacklist_raw (df ! i)) = None \<longleftrightarrow>
              (parse_raw_blacklist (blacklist_raw (df ! i)) \<noteq> Some 1 \<and>
               parse_raw_blacklist (blacklist_raw (df ! i)) \<noteq> Some 0))"
proof -
  have "apply_blacklist_logic columns df = Inr (map blacklist_logic_row df)"
    using assms(1,2) by (rule apply_blacklist_logic_rows)
  moreover have "blacklist_status (map blacklist_logic_row df ! i) =
      (if d < BLACKLIST_START_DATE then 1
       else if parse_raw_blacklist (blacklist_raw (df ! i)) = Some 1 then 1 else 0)"
    using assms(3,4) by (simp add: blacklist_logic_row_status)
  ultimately show ?thesis
    using parse_raw_blacklist_passed [of "blacklist_raw (df ! i)"]
      parse_raw_blacklist_failed [of "blacklist_raw (df ! i)"]
      parse_raw_blacklist_unknown [of "blacklist_raw (df ! i)"]
    by simp
qed

theorem blacklist_status_by_date_witness:
  "''created_date'' \<in> set [''created_date'', ''blacklist_raw''] \<and>
   ''blacklist_raw'' \<in> set [''created_date'', ''blacklist_raw''] \<and>
   (1::nat) < length [\<lparr>created_date = Some (Timestamp 2024 5 31), blacklist_raw = Some ''red.png'',
                        blacklist_parsed = None, blacklist_status = 0\<rparr>,
                      \<lparr>created_date = Some (Timestamp 2024 6 1), blacklist_raw = Some ''0'',
                        blacklist_parsed = None, blacklist_status = 0\<rparr>] \<and>
   Timestamp 2024 5 31 < BLACKLIST_START_DATE \<and> BLACKLIST_START_DATE \<le> Timestamp 2024 6 1 \<and>
   (\<exists>out. apply_blacklist_logic [''created_date'', ''blacklist_raw'']
             [\<lparr>created_date = Some (Timestamp 2024 5 31), blacklist_raw = Some ''red.png'',
                        blacklist_parsed = None, blacklist_status = 0\<rparr>,
              \<lparr>created_date = Some (Timestamp 2024 6 1), blacklist_raw = Some ''0'',
                        blacklist_parsed = None, blacklist_status = 0\<rparr>] = Inr out \<and>
          length out = 2 \<and> blacklist_status (out ! 0) = 1 \<and> blacklist_status (out ! 1) = 0)"
  using blacklist_status_by_date [where columns = "[''created_date'', ''blacklist_raw'']"
      and df = "[\<lparr>created_date = Some (Timestamp 2024 5 31), blacklist_raw = Some ''red.png'',
                        blacklist_parsed = None, blacklist_status = 0\<rparr>,
                 \<lparr>created_date = Some (Timestamp 2024 6 1), blacklist_raw = Some ''0'',
                        blacklist_parsed = None, blacklist_status = 0\<rparr>]" and i = 0
      and d = "Timestamp 2024 5 31"]
    blacklist_status_by_date [where columns = "[''created_date'', ''blacklist_raw'']"
      and df = "[\<lparr>created_date = Some (Timestamp 2024 5 31), blacklist_raw = Some ''red.png'',
                        blacklist_parsed = None, blacklist_status = 0\<rparr>,
                 \<lparr>created_date = Some (Timestamp 2024 6 1), blacklist_raw = Some ''0'',
                        blacklist_parsed = None, blacklist_status = 0\<rparr>]" and i = 1
      and d = "Timestamp 2024 6 1"]
  by (auto simp add: BLACKLIST_START_DATE_def Timestamp_def days_from_civil_def
        parse_raw_blacklist_def isna_def py_str_def)

section \<open>Digital-presence migration\<close>

lemma is_url_None:
  "\<not> is_google_maps_url None" "\<not> is_social_media_url None" "\<not> is_ecommerce_url None"
  by (simp_all add: is_google_maps_url_def is_social_media_url_def is_ecommerce_url_def isna_def)

lemma migrate_row_maps:
  "is_google_maps_url (website row) \<Longrightarrow>
     migrate_row row c =
       ((if is_cell_empty (google_map_id row) then row\<lparr>google_map_id := website row\<rparr> else row)
          \<lparr>website := None\<rparr>,
        (if is_cell_empty (google_map_id row) then c\<lparr>moved_maps := moved_maps c + 1\<rparr> else c)
          \<lparr>removed_maps := removed_maps c + 1\<rparr>)"
  by (simp add: migrate_row_def maps_branch_def Let_def)

lemma migrate_row_not_maps:
  "\<not> is_google_maps_url (website row) \<Longrightarrow>
     migrate_row row c =
       (row\<lparr>social_media_links :=
               (if is_social_media_url (website row)
                then (if is_cell_empty (social_media_links row) then website row
                      else Some (py_str (social_media_links row) @ '' | '' @ py_str (website row)))
                else social_media_links row),
            ecommerce_link :=
               (if is_ecommerce_url (website row)
                then (if is_cell_empty (ecommerce_link row) then website row
                      else Some (py_str (ecommerce_link row) @ '' | '' @ py_str (website row)))
                else ecommerce_link row),
            website :=
               (if is_social_media_url (website row) \<or> is_ecommerce_url (website row)
                then None else website row)\<rparr>,
        c\<lparr>moved_social := moved_social c + (if is_social_media_url (website row) then 1 else 0),
          moved_ecommerce := moved_ecommerce c + (if is_ecommerce_url (website row) then 1 else 0)\<rparr>)"
  by (simp add: migrate_row_def social_branch_def ecommerce_branch_def Let_def)

lemma migrate_row_website:
  "website (fst (migrate_row row c)) =
     (if is_google_maps_url (website row) \<or> is_social_media_url (website row)
         \<or> is_ecommerce_url (website row)
      then None else website row)"
  by (cases "is_google_maps_url (website row)")
     (simp_all add: migrate_row_maps migrate_row_not_maps)

lemma migrate_row_fst: "fst (migrate_row row c) = fst (migrate_row row c0)"
  by (cases "is_google_maps_url (website row)")
     (simp_all add: migrate_row_maps migrate_row_not_maps)

lemma migrate_rows: "fst (migrate df c) = map (\<lambda>row. fst (migrate_row row zero_counters)) df"
proof (induction df arbitrary: c)
  case Nil
  then show ?case by simp
next
  case (Cons row rows)
  show ?case
    using Cons.IH [of "snd (migrate_row row c)"] migrate_row_fst [of row c zero_counters]
    by (simp add: split_beta)
qed

text \<open>
  Claim C5. After the migration loop the frame has as many rows as before, and the
  \<open>website\<close> of every row is missing when the row's website was a maps, social or
  e-commerce URL and is the untouched value otherwise; in either case none of the three
  URL tests accepts it.
\<close>

theorem website_unclassified_after_migration:
  assumes "i < length df"
  shows "length (fst (migrate df c)) = length df \<and>
         website (fst (migrate df c) ! i) =
           (if is_google_maps_url (website (df ! i)) \<or> is_social_media_url (website (df ! i))
               \<or> is_ecommerce_url (website (df ! i))
            then None else website (df ! i)) \<and>
         \<not> is_google_maps_url (website (fst (migrate df c) ! i)) \<and>
         \<not> is_social_media_url (website (fst (migrate df c) ! i)) \<and>
         \<not> is_ecommerce_url (website (fst (migrate df c) ! i))"
proof -
  have out: "fst (migrate df c) = map (\<lambda>row. fst (migrate_row row zero_counters)) df"
    by (rule migrate_rows)
  with assms have "website (fst (migrate df c) ! i) =
      (if is_google_maps_url (website (df ! i)) \<or> is_social_media_url (website (df ! i))
          \<or> is_ecommerce_url (website (df ! i))
       then None else website (df ! i))"
    by (simp add: migrate_row_website)
  then show ?thesis using out by (simp add: is_url_None)
qed

theorem website_unclassified_after_migration_witness:
  "(1::nat) < length [empty_lead\<lparr>website := Some ''https://example.com''\<rparr>,
                      empty_lead\<lparr>website := Some ''https://www.Facebook.com/mystore''\<rparr>] \<and>
   website (fst (migrate [empty_lead\<lparr>website := Some ''https://example.com''\<rparr>,
                          empty_lead\<lparr>website := Some ''https://www.Facebook.com/mystore''\<rparr>]
                  zero_counters) ! 1) = None"
proof -
  have h: "(1::nat) < length [empty_lead\<lparr>website := Some ''https://example.com''\<rparr>,
                      empty_lead\<lparr>website := Some ''https://www.Facebook.com/mystore''\<rparr>]"
    by simp
  have e: "is_social_media_url (Some ''https://www.Facebook.com/mystore'')"
    by code_simp
  from website_unclassified_after_migration [OF h, of zero_counters] e h
  show ?thesis by simp
qed

text \<open>
  Claim C2, as the code has it. A maps URL is never tested against the social and
  e-commerce rules: the two target cells and their counters stay as they were. For any
  other website the two tests are separate \<open>if\<close> statements on the same value: the social
  branch runs exactly when the value matches a social domain, the e-commerce branch
  exactly when it matches \<open>salla.sa\<close>, each sets or appends to its own target. The value
  is written into at most one of the three targets whenever it does not match both lists.
\<close>

theorem migrate_row_branches:
  assumes "migrate_row row c = (r, c')"
  shows "(is_google_maps_url (website row) \<longrightarrow>
            social_media_links r = social_media_links row \<and>
            ecommerce_link r = ecommerce_link row \<and>
            moved_social c' = moved_social c \<and> moved_ecommerce c' = moved_ecommerce c \<and>
            removed_maps c' = removed_maps c + 1) \<and>
         (\<not> is_google_maps_url (website row) \<longrightarrow>
            google_map_id r = google_map_id row \<and>
            moved_maps c' = moved_maps c \<and> removed_maps c' = removed_maps c \<and>
            moved_social c' =
              moved_social c + (if is_social_media_url (website row) then 1 else 0) \<and>
            moved_ecommerce c' =
              moved_ecommerce c + (if is_ecommerce_url (website row) then 1 else 0) \<and>
            social_media_links r =
              (if is_social_media_url (website row)
               then (if is_cell_empty (social_media_links row) then website row
                     else Some (py_str (social_media_links row) @ '' | '' @ py_str (website row)))
               else social_media_links row) \<and>
            ecommerce_link r =
              (if is_ecommerce_url (website row)
               then (if is_cell_empty (ecommerce_link row) then website row
                     else Some (py_str (ecommerce_link row) @ '' | '' @ py_str (website row)))
               else ecommerce_link row)) \<and>
         (\<not> (is_social_media_url (website row) \<and> is_ecommerce_url (website row)) \<longrightarrow>
            (moved_maps c' - moved_maps c) + (moved_social c' - moved_social c)
              + (moved_ecommerce c' - moved_ecommerce c) \<le> 1)"
proof (cases "is_google_maps_url (website row)")
  case True
  with assms show ?thesis by (auto simp: migrate_row_maps)
next
  case False
  with assms show ?thesis by (auto simp: migrate_row_not_maps)
qed

theorem migrate_row_branches_witness:
  "migrate_row (empty_lead\<lparr>website := Some ''https://maps.google.com/?q=facebook.com''\<rparr>)
     zero_counters
   = (empty_lead\<lparr>google_map_id := Some ''https://maps.google.com/?q=facebook.com''\<rparr>,
      zero_counters\<lparr>moved_maps := 1, removed_maps := 1\<rparr>) \<and>
   is_google_maps_url
     (website (empty_lead\<lparr>website := Some ''https://maps.google.com/?q=facebook.com''\<rparr>)) \<and>
   is_social_media_url
     (website (empty_lead\<lparr>website := Some ''https://maps.google.com/?q=facebook.com''\<rparr>)) \<and>
   social_media_links
     (empty_lead\<lparr>google_map_id := Some ''https://maps.google.com/?q=facebook.com''\<rparr>)
   = social_media_links
       (empty_lead\<lparr>website := Some ''https://maps.google.com/?q=facebook.com''\<rparr>) \<and>
   moved_social (zero_counters\<lparr>moved_maps := 1, removed_maps := 1\<rparr>)
   = moved_social zero_counters"
proof -
  have h: "migrate_row (empty_lead\<lparr>website := Some ''https://maps.google.com/?q=facebook.com''\<rparr>)
     zero_counters
   = (empty_lead\<lparr>google_map_id := Some ''https://maps.google.com/?q=facebook.com''\<rparr>,
      zero_counters\<lparr>moved_maps := 1, removed_maps := 1\<rparr>)"
    by code_simp
  have m: "is_google_maps_url
     (website (empty_lead\<lparr>website := Some ''https://maps.google.com/?q=facebook.com''\<rparr>))"
    by code_simp
  have s: "is_social_media_url
     (website (empty_lead\<lparr>website := Some ''https://maps.google.com/?q=facebook.com''\<rparr>))"
    by code_simp
  from migrate_row_branches [OF h] h m s show ?thesis by blast
qed

text \<open>A shop URL with an Instagram campaign tag matches both lists: both branches run,
  and the value is set in \<open>social_media_links\<close> and in \<open>ecommerce_link\<close>.\<close>

theorem social_and_ecommerce_both_fire_counterexample:
  "migrate_row (empty_lead\<lparr>website := Some ''https://salla.sa/shop?utm_source=instagram.com''\<rparr>)
     zero_counters
   = (empty_lead\<lparr>social_media_links := Some ''https://salla.sa/shop?utm_source=instagram.com'',
                  ecommerce_link := Some ''https://salla.sa/shop?utm_source=instagram.com''\<rparr>,
      zero_counters\<lparr>moved_social := 1, moved_ecommerce := 1\<rparr>)"
  by code_simp

text \<open>
  Claim C10. Let the target cell hold a text that is neither blank nor \<open>nan\<close> (in any
  case). A maps website then leaves \<open>google_map_id\<close> and every other cell as they were
  and clears \<open>website\<close>, counting one removal: the URL is gone. A social or e-commerce
  website (not a maps one) is appended to its target behind the separator \<open>" | "\<close>, and
  \<open>website\<close> is cleared.
\<close>

theorem occupied_target_maps_discards_others_append:
  assumes "website row = Some site"
    and "py_strip cur \<noteq> []" and "py_lower cur \<noteq> ''nan''"
  shows "(is_google_maps_url (Some site) \<and> google_map_id row = Some cur \<longrightarrow>
            migrate_row row c =
              (row\<lparr>website := None\<rparr>, c\<lparr>removed_maps := removed_maps c + 1\<rparr>)) \<and>
         (\<not> is_google_maps_url (Some site) \<and> is_social_media_url (Some site)
            \<and> social_media_links row = Some cur \<longrightarrow>
            social_media_links (fst (migrate_row row c)) = Some (cur @ '' | '' @ site) \<and>
            website (fst (migrate_row row c)) = None) \<and>
         (\<not> is_google_maps_url (Some site) \<and> is_ecommerce_url (Some site)
            \<and> ecommerce_link row = Some cur \<longrightarrow>
            ecommerce_link (fst (migrate_row row c)) = Some (cur @ '' | '' @ site) \<and>
            website (fst (migrate_row row c)) = None)"
proof -
  have ne: "\<not> is_cell_empty (Some cur)"
    using assms(2,3) by (simp add: is_cell_empty_def isna_def py_str_def)
  show ?thesis
    using assms(1) ne
    by (auto simp: migrate_row_maps migrate_row_not_maps py_str_def)
qed

theorem occupied_target_maps_discards_others_append_witness:
  "website (empty_lead\<lparr>website := Some ''https://goo.gl/maps/abc'',
                        google_map_id := Some ''ChIJ123''\<rparr>) = Some ''https://goo.gl/maps/abc'' \<and>
   py_strip ''ChIJ123'' \<noteq> [] \<and> py_lower ''ChIJ123'' \<noteq> ''nan'' \<and>
   is_google_maps_url (Some ''https://goo.gl/maps/abc'') \<and>
   google_map_id (empty_lead\<lparr>website := Some ''https://goo.gl/maps/abc'',
                        google_map_id := Some ''ChIJ123''\<rparr>) = Some ''ChIJ123'' \<and>
   migrate_row (empty_lead\<lparr>website := Some ''https://goo.gl/maps/abc'',
                        google_map_id := Some ''ChIJ123''\<rparr>) zero_counters
   = (empty_lead\<lparr>website := Some ''https://goo.gl/maps/abc'',
                        google_map_id := Some ''ChIJ123''\<rparr>\<lparr>website := None\<rparr>,
      zero_counters\<lparr>removed_maps := removed_maps zero_counters + 1\<rparr>)"
proof -
  have w: "website (empty_lead\<lparr>website := Some ''https://goo.gl/maps/abc'',
                        google_map_id := Some ''ChIJ123''\<rparr>) = Some ''https://goo.gl/maps/abc''"
    by simp
  have g: "google_map_id (empty_lead\<lparr>website := Some ''https://goo.gl/maps/abc'',
                        google_map_id := Some ''ChIJ123''\<rparr>) = Some ''ChIJ123''"
    by simp
  have s: "py_strip ''ChIJ123'' \<noteq> []" by code_simp
  have n: "py_lower ''ChIJ123'' \<noteq> ''nan''" by code_simp
  have m: "is_google_maps_url (Some ''https://goo.gl/maps/abc'')" by code_simp
  from occupied_target_maps_discards_others_append [OF w s n, of zero_counters] w g s n m
  show ?thesis by blast
qed

section \<open>Removing duplicates\<close>

lemma dedup_pass_from:
  "drop_masked rs (map2 (\<lambda>d n. d \<and> n) (duplicated_from seen (map col rs))
       (map (\<lambda>r. notna (col r)) rs)) = dedup_from col seen rs"
  by (induction rs arbitrary: seen) (simp_all add: drop_masked_def notna_def)

lemma dedup_pass_rec: "dedup_pass col df = dedup_from col [] df"
  by (simp add: dedup_pass_def duplicated_def dedup_pass_from)

lemma dedup_from_nths:
  "dedup_from col seen df =
     nths df {i. \<not> (col (df ! i) \<noteq> None \<and>
                     (col (df ! i) \<in> set seen \<or> (\<exists>j<i. col (df ! j) = col (df ! i))))}"
proof (induction df arbitrary: seen)
  case Nil
  then show ?case by simp
next
  case (Cons r rs)
  have tail: "{j. Suc j \<in> {i. \<not> (col ((r # rs) ! i) \<noteq> None \<and>
                     (col ((r # rs) ! i) \<in> set seen \<or> (\<exists>j<i. col ((r # rs) ! j) = col ((r # rs) ! i))))}}
      = {i. \<not> (col (rs ! i) \<noteq> None \<and>
                     (col (rs ! i) \<in> set (col r # seen) \<or> (\<exists>j<i. col (rs ! j) = col (rs ! i))))}"
    by (auto simp: less_Suc_eq_0_disj)
  show ?case
    unfolding nths_Cons tail using Cons.IH [of "col r # seen"] by auto
qed

lemma dedup_from_null_kept:
  "filter (\<lambda>r. col r = None) (dedup_from col seen df) = filter (\<lambda>r. col r = None) df"
  by (induction df arbitrary: seen) simp_all

lemma dedup_from_subseq: "subseq (dedup_from col seen df) df"
  by (induction df arbitrary: seen) (auto intro: list_emb_Cons)

lemma non_null_keys_Nil: "non_null_keys col [] = []"
  by (simp add: non_null_keys_def)

lemma non_null_keys_Cons:
  "non_null_keys col (r # rs) =
     (if col r = None then non_null_keys col rs else col r # non_null_keys col rs)"
  by (simp add: non_null_keys_def)

lemma dedup_from_distinct:
  "distinct (non_null_keys col (dedup_from col seen df)) \<and>
   set (non_null_keys col (dedup_from col seen df)) \<inter> set seen = {}"
proof (induction df arbitrary: seen)
  case Nil
  then show ?case by (simp add: non_null_keys_Nil)
next
  case (Cons r rs)
  let ?rest = "dedup_from col (col r # seen) rs"
  from Cons.IH [of "col r # seen"]
  have d: "distinct (non_null_keys col ?rest)"
    and n: "col r \<notin> set (non_null_keys col ?rest)"
    and s: "set (non_null_keys col ?rest) \<inter> set seen = {}"
    by auto
  show ?case
  proof (cases "col r \<in> set seen \<and> col r \<noteq> None")
    case True
    with d s show ?thesis by simp
  next
    case False
    with d n s show ?thesis by (auto simp: non_null_keys_Cons)
  qed
qed

lemma dedup_from_fixed:
  "distinct (non_null_keys col df) \<Longrightarrow> set (non_null_keys col df) \<inter> set seen = {} \<Longrightarrow>
     dedup_from col seen df = df"
proof (induction df arbitrary: seen)
  case Nil
  then show ?case by simp
next
  case (Cons r rs)
  from Cons.prems have keep: "\<not> (col r \<in> set seen \<and> col r \<noteq> None)"
    by (auto simp: non_null_keys_Cons)
  from Cons.prems have "distinct (non_null_keys col rs)"
    by (simp add: non_null_keys_Cons split: if_splits)
  moreover from Cons.prems have "set (non_null_keys col rs) \<inter> set (col r # seen) = {}"
    by (cases "col r = None") (auto simp: non_null_keys_Cons non_null_keys_def)
  ultimately have "dedup_from col (col r # seen) rs = rs" by (rule Cons.IH)
  with keep show ?case by simp
qed

lemma subseq_distinct: "subseq xs ys \<Longrightarrow> distinct ys \<Longrightarrow> distinct xs"
  by (metis subseq_conv_nths distinct_nthsI)

lemma dedup_from_keeps_distinct:
  assumes "distinct (non_null_keys col df)"
  shows "distinct (non_null_keys col (dedup_from col' seen df))"
proof -
  have "subseq (non_null_keys col (dedup_from col' seen df)) (non_null_keys col df)"
    unfolding non_null_keys_def by (intro subseq_filter subseq_map dedup_from_subseq)
  then show ?thesis using assms by (rule subseq_distinct)
qed

lemma dedup_pass_distinct: "distinct (non_null_keys col (dedup_pass col df))"
  using dedup_from_distinct [of col "[]" df] by (simp add: dedup_pass_rec)

lemma dedup_pass_fixed: "distinct (non_null_keys col df) \<Longrightarrow> dedup_pass col df = df"
  using dedup_from_fixed [of col df "[]"] by (simp add: dedup_pass_rec)

lemma dedup_pass_keeps_distinct:
  "distinct (non_null_keys col df) \<Longrightarrow> distinct (non_null_keys col (dedup_pass col' df))"
  by (simp add: dedup_pass_rec dedup_from_keeps_distinct)

lemma nths_cong_below:
  "(\<And>i. i < length xs \<Longrightarrow> (i \<in> A) = (i \<in> B)) \<Longrightarrow> nths xs A = nths xs B"
  unfolding nths_def
  by (rule arg_cong [where f = "map fst"], rule filter_cong) (auto simp: set_zip)

lemma dedup_pass_nths:
  "dedup_pass col df =
     nths df {i. \<not> (col (df ! i) \<noteq> None \<and> (\<exists>j<i. col (df ! j) = col (df ! i)))}"
  using dedup_from_nths [of col "[]" df] by (simp add: dedup_pass_rec)

lemma dedup_pass_subset: "set (dedup_pass col df) \<subseteq> set df"
  by (simp add: dedup_pass_nths set_nths_subset)

text \<open>
  Claim C3. On a frame as \<open>read_csv\<close> delivers it, a pass on a column drops the row at
  position \<open>i\<close> exactly when its value is neither missing nor empty and a row before it
  has the same value. So every row whose value is missing or empty stays, and of the
  rows that share a value the first one stays. The result of a pass is again such a
  frame, for every column, and the two passes run one after the other, on \<open>mobile\<close> and
  then on \<open>email\<close>, each only when the frame has the column.
\<close>

theorem dedup_pass_keeps_null_and_empty:
  assumes "list_all (\<lambda>r. from_read_csv (col r)) df"
  shows "dedup_pass col df =
           nths df {i. \<not> (col (df ! i) \<noteq> None \<and> col (df ! i) \<noteq> Some [] \<and>
                           (\<exists>j<i. col (df ! j) = col (df ! i)))} \<and>
         filter (\<lambda>r. col r = None \<or> col r = Some []) (dedup_pass col df)
           = filter (\<lambda>r. col r = None \<or> col r = Some []) df \<and>
         list_all (\<lambda>r. from_read_csv (col r)) (dedup_pass col' df) \<and>
         remove_duplicates columns df =
           (if ''email'' \<in> set columns then dedup_pass email else id)
             ((if ''mobile'' \<in> set columns then dedup_pass mobile else id) df)"
proof (intro conjI)
  from assms have ne: "\<And>r. r \<in> set df \<Longrightarrow> col r \<noteq> Some []"
    by (simp add: list_all_iff from_read_csv_def)
  have "nths df {i. \<not> (col (df ! i) \<noteq> None \<and> (\<exists>j<i. col (df ! j) = col (df ! i)))}
      = nths df {i. \<not> (col (df ! i) \<noteq> None \<and> col (df ! i) \<noteq> Some [] \<and>
                           (\<exists>j<i. col (df ! j) = col (df ! i)))}"
    by (rule nths_cong_below) (use ne in auto)
  then show "dedup_pass col df =
           nths df {i. \<not> (col (df ! i) \<noteq> None \<and> col (df ! i) \<noteq> Some [] \<and>
                           (\<exists>j<i. col (df ! j) = col (df ! i)))}"
    by (simp only: dedup_pass_nths)
  have "filter (\<lambda>r. col r = None \<or> col r = Some []) (dedup_pass col df)
      = filter (\<lambda>r. col r = None) (dedup_pass col df)"
    by (rule filter_cong) (use ne dedup_pass_subset [of col df] in auto)
  also have "\<dots> = filter (\<lambda>r. col r = None) df"
    by (simp only: dedup_pass_rec dedup_from_null_kept)
  also have "\<dots> = filter (\<lambda>r. col r = None \<or> col r = Some []) df"
    by (rule filter_cong) (use ne in auto)
  finally show "filter (\<lambda>r. col r = None \<or> col r = Some []) (dedup_pass col df)
           = filter (\<lambda>r. col r = None \<or> col r = Some []) df" .
  show "list_all (\<lambda>r. from_read_csv (col r)) (dedup_pass col' df)"
    using assms dedup_pass_subset [of col' df] by (auto simp: list_all_iff)
  show "remove_duplicates columns df =
           (if ''email'' \<in> set columns then dedup_pass email else id)
             ((if ''mobile'' \<in> set columns then dedup_pass mobile else id) df)"
    by (simp add: remove_duplicates_def Let_def)
qed

theorem dedup_pass_keeps_null_and_empty_witness:
  "list_all (\<lambda>r. from_read_csv (mobile r))
     [empty_lead\<lparr>mobile := Some ''966500000000'', email := Some ''a@x.sa''\<rparr>,
      empty_lead,
      empty_lead\<lparr>mobile := Some ''966500000000'', email := Some ''b@x.sa''\<rparr>,
      empty_lead] \<and>
   dedup_pass mobile
     [empty_lead\<lparr>mobile := Some ''966500000000'', email := Some ''a@x.sa''\<rparr>,
      empty_lead,
      empty_lead\<lparr>mobile := Some ''966500000000'', email := Some ''b@x.sa''\<rparr>,
      empty_lead]
   = [empty_lead\<lparr>mobile := Some ''966500000000'', email := Some ''a@x.sa''\<rparr>,
      empty_lead, empty_lead] \<and>
   filter (\<lambda>r. mobile r = None \<or> mobile r = Some [])
     (dedup_pass mobile
       [empty_lead\<lparr>mobile := Some ''966500000000'', email := Some ''a@x.sa''\<rparr>,
        empty_lead,
        empty_lead\<lparr>mobile := Some ''966500000000'', email := Some ''b@x.sa''\<rparr>,
        empty_lead])
   = filter (\<lambda>r. mobile r = None \<or> mobile r = Some [])
       [empty_lead\<lparr>mobile := Some ''966500000000'', email := Some ''a@x.sa''\<rparr>,
        empty_lead,
        empty_lead\<lparr>mobile := Some ''966500000000'', email := Some ''b@x.sa''\<rparr>,
        empty_lead]"
proof -
  have h: "list_all (\<lambda>r. from_read_csv (mobile r))
     [empty_lead\<lparr>mobile := Some ''966500000000'', email := Some ''a@x.sa''\<rparr>,
      empty_lead,
      empty_lead\<lparr>mobile := Some ''966500000000'', email := Some ''b@x.sa''\<rparr>,
      empty_lead]"
    by code_simp
  have e: "dedup_pass mobile
     [empty_lead\<lparr>mobile := Some ''966500000000'', email := Some ''a@x.sa''\<rparr>,
      empty_lead,
      empty_lead\<lparr>mobile := Some ''966500000000'', email := Some ''b@x.sa''\<rparr>,
      empty_lead]
   = [empty_lead\<lparr>mobile := Some ''966500000000'', email := Some ''a@x.sa''\<rparr>,
      empty_lead, empty_lead]"
    by code_simp
  from dedup_pass_keeps_null_and_empty [OF h] h e show ?thesis by blast
qed

text \<open>The pass itself exempts only missing values. On a frame built by hand with the
  empty string in two \<open>mobile\<close> cells, which \<open>read_csv\<close> does not produce, the second row
  goes.\<close>

lemma dedup_pass_hand_built_empty_strings:
  "remove_duplicates [''mobile'', ''email'']
     [empty_lead\<lparr>mobile := Some '''', email := Some ''a@x.sa''\<rparr>,
      empty_lead\<lparr>mobile := Some '''', email := Some ''b@x.sa''\<rparr>]
   = [empty_lead\<lparr>mobile := Some '''', email := Some ''a@x.sa''\<rparr>]"
  by code_simp

text \<open>The scenario of two rows that share a mobile number and nothing else, with a row
  without a number between them.\<close>

lemma remove_duplicates_shared_mobile:
  "remove_duplicates [''mobile'', ''email'']
     [empty_lead\<lparr>mobile := Some ''966500000000'', email := Some ''a@x.sa''\<rparr>,
      empty_lead,
      empty_lead\<lparr>mobile := Some ''966500000000'', email := Some ''b@x.sa''\<rparr>,
      empty_lead]
   = [empty_lead\<lparr>mobile := Some ''966500000000'', email := Some ''a@x.sa''\<rparr>,
      empty_lead,
      empty_lead]"
  by code_simp

text \<open>
  Claim C8. Removing duplicates from the result of removing duplicates changes nothing,
  whichever of the two columns the frame has.
\<close>

theorem remove_duplicates_idempotent:
  "remove_duplicates columns (remove_duplicates columns df) = remove_duplicates columns df"
  by (simp add: remove_duplicates_def Let_def dedup_pass_fixed dedup_pass_distinct
        dedup_pass_keeps_distinct)

section \<open>Journey tracking\<close>

lemma re_sub_version_skip:
  "CHR ''v'' \<notin> set p \<Longrightarrow> re_sub_version (p @ t) = p @ re_sub_version t"
proof (induction p)
  case Nil
  then show ?case by simp
next
  case (Cons a p)
  from Cons.prems have "a \<noteq> CHR ''v''" by auto
  then have "match_version (a # p @ t) = None" by (simp add: match_version_def)
  with Cons show ?case by simp
qed

lemma match_version_token:
  assumes "ds \<noteq> []" and "list_all is_digit ds"
  shows "match_version (CHR ''v'' # ds @ CHR ''_'' # q) = Some q"
proof -
  have nd: "\<not> is_digit CHR ''_''" by (simp add: is_digit_def)
  from assms(2) have all: "\<And>x. x \<in> set ds \<Longrightarrow> is_digit x" by (simp add: list_all_iff)
  have "takeWhile is_digit (ds @ CHR ''_'' # q) = ds"
    using all nd by (simp add: takeWhile_append2)
  moreover have "dropWhile is_digit (ds @ CHR ''_'' # q) = CHR ''_'' # q"
    using all nd by (simp add: dropWhile_append2)
  ultimately show ?thesis using assms(1) by (simp add: match_version_def)
qed

lemma replace_step_skip:
  "CHR ''_'' \<notin> set p \<Longrightarrow> replace_from ''_step'' new (p @ t) = p @ replace_from ''_step'' new t"
  by (induction p) auto

lemma replace_step_hit: "replace_from ''_step'' new (''_step'' @ q) = new @ replace_from ''_step'' new q"
  by simp

text \<open>
  Claim C4, as the code has it. A missing or empty step code has no cleaned name. For any
  other code the cleaned name is: the code in lower case, every match of \<open>v<digits>_\<close>
  found in one scan from the left deleted, then every occurrence of \<open>_step\<close> deleted,
  underscores turned into spaces, the result title-cased. The deletions are not tied to
  the ends of the code: a version token behind a prefix without the letter \<open>v\<close> is
  deleted, and so is a \<open>_step\<close> behind a prefix without an underscore.
\<close>

theorem clean_step_name_removes_everywhere:
  "clean_step_name None = None \<and> clean_step_name (Some []) = None \<and>
   (s \<noteq> [] \<longrightarrow>
      clean_step_name (Some s) =
        Some (py_title (py_replace ''_'' '' ''
               (py_replace ''_step'' [] (re_sub_version (py_lower s)))))) \<and>
   (CHR ''v'' \<notin> set p \<and> ds \<noteq> [] \<and> list_all is_digit ds \<longrightarrow>
      re_sub_version (p @ ''v'' @ ds @ ''_'' @ q) = p @ re_sub_version q) \<and>
   (CHR ''_'' \<notin> set p \<longrightarrow>
      py_replace ''_step'' [] (p @ ''_step'' @ q) = p @ py_replace ''_step'' [] q)"
proof (intro conjI impI)
  show "clean_step_name None = None" by (simp add: clean_step_name_def isna_def)
  show "clean_step_name (Some []) = None" by (simp add: clean_step_name_def)
  show "clean_step_name (Some s) =
        Some (py_title (py_replace ''_'' '' ''
               (py_replace ''_step'' [] (re_sub_version (py_lower s)))))" if "s \<noteq> []"
    using that by (simp add: clean_step_name_def isna_def py_str_def Let_def)
  show "re_sub_version (p @ ''v'' @ ds @ ''_'' @ q) = p @ re_sub_version q"
    if "CHR ''v'' \<notin> set p \<and> ds \<noteq> [] \<and> list_all is_digit ds"
  proof -
    from that have "re_sub_version (p @ ''v'' @ ds @ ''_'' @ q)
        = p @ re_sub_version (CHR ''v'' # ds @ CHR ''_'' # q)"
      using re_sub_version_skip [of p "''v'' @ ds @ ''_'' @ q"] by simp
    also have "re_sub_version (CHR ''v'' # ds @ CHR ''_'' # q) = re_sub_version q"
      using that match_version_token [of ds q] by simp
    finally show ?thesis .
  qed
  show "py_replace ''_step'' [] (p @ ''_step'' @ q) = p @ py_replace ''_step'' [] q"
    if "CHR ''_'' \<notin> set p"
    using that replace_step_skip [of p "[]" "''_step'' @ q"] replace_step_hit [of "[]" q]
    by (simp add: py_replace_def)
qed

theorem clean_step_name_removes_everywhere_witness:
  "''upload_step_v2_docs'' \<noteq> [] \<and>
   clean_step_name (Some ''upload_step_v2_docs'') =
     Some (py_title (py_replace ''_'' '' ''
            (py_replace ''_step'' [] (re_sub_version (py_lower ''upload_step_v2_docs''))))) \<and>
   clean_step_name (Some ''upload_step_v2_docs'') = Some ''Upload Docs'' \<and>
   CHR ''v'' \<notin> set ''upload_step_'' \<and> ''2'' \<noteq> [] \<and> list_all is_digit ''2'' \<and>
   re_sub_version (''upload_step_'' @ ''v'' @ ''2'' @ ''_'' @ ''docs'')
     = ''upload_step_'' @ re_sub_version ''docs'' \<and>
   CHR ''_'' \<notin> set ''upload'' \<and>
   py_replace ''_step'' [] (''upload'' @ ''_step'' @ ''_docs'')
     = ''upload'' @ py_replace ''_step'' [] ''_docs''"
proof -
  have a: "''upload_step_v2_docs'' \<noteq> []" by simp
  have b: "clean_step_name (Some ''upload_step_v2_docs'') = Some ''Upload Docs''"
    by code_simp
  have c: "CHR ''v'' \<notin> set ''upload_step_'' \<and> ''2'' \<noteq> [] \<and> list_all is_digit ''2''"
    by code_simp
  have d: "CHR ''_'' \<notin> set ''upload''" by simp
  from clean_step_name_removes_everywhere
         [where s = "''upload_step_v2_docs''" and p = "''upload_step_''" and ds = "''2''"
            and q = "''docs''"]
       clean_step_name_removes_everywhere
         [where s = "''upload_step_v2_docs''" and p = "''upload''" and ds = "''2''"
            and q = "''_docs''"]
       a b c d
  show ?thesis by blast
qed

text \<open>A code with \<open>_step\<close> and a version token in the middle: the code deletes both, the
  wording of the specification keeps both.\<close>

theorem clean_step_name_interior_tokens_counterexample:
  "clean_step_name (Some ''upload_step_v2_docs'') = Some ''Upload Docs'' \<and>
   clean_step_name_spec (Some ''upload_step_v2_docs'') = Some ''Upload Step V2 Docs''"
  by code_simp

text \<open>On the ten configured step codes the code and the wording agree.\<close>

lemma clean_step_name_on_configured_steps:
  "list_all (\<lambda>s. clean_step_name (Some s) = clean_step_name_spec (Some s))
     (concat (map snd step_config)) \<and>
   clean_step_name (Some ''v2_business_details_step'') = Some ''Business Details''"
  by code_simp

text \<open>
  Claim C7. The journey stage is read off in this order: a converted date gives
  \<open>Converted\<close>; else a KYB-submitted date gives \<open>KYB Submitted\<close>; else a KYB-in-progress
  date gives \<open>KYB In Progress\<close>; else a cleaned step name gives \<open>Onboarding Completed\<close>
  when it contains \<open>Final\<close> and \<open>Onboarding: \<close> followed by the name otherwise; else a
  creation date gives \<open>Registered\<close>; else the stage is \<open>Unknown\<close>. A row with both a
  converted and a KYB-submitted date is \<open>Converted\<close>. The cleaned step name of a row is
  \<open>clean_step_name\<close> of its step code.
\<close>

theorem journey_stage_priority:
  "get_journey_stage row =
     (if converted_date row \<noteq> None then ''Converted''
      else if kyb_submitted_date row \<noteq> None then ''KYB Submitted''
      else if kyb_in_progress_date row \<noteq> None then ''KYB In Progress''
      else case readable_onboarding_step row of
             Some step \<Rightarrow>
               if py_in ''Final'' step then ''Onboarding Completed''
               else ''Onboarding: '' @ step
           | None \<Rightarrow> if created_date row \<noteq> None then ''Registered'' else ''Unknown'') \<and>
   (converted_date row \<noteq> None \<and> kyb_submitted_date row \<noteq> None \<longrightarrow>
      get_journey_stage row = ''Converted'') \<and>
   readable_onboarding_step (add_readable_step row) = clean_step_name (onboarding_step row)"
  by (cases "readable_onboarding_step row")
     (simp_all add: get_journey_stage_def notna_def py_str_def Let_def add_readable_step_def)

theorem journey_stage_priority_witness:
  "converted_date (empty_lead\<lparr>converted_date := Some (Timestamp 2024 7 1),
       kyb_submitted_date := Some (Timestamp 2024 6 20)\<rparr>) \<noteq> None \<and>
   kyb_submitted_date (empty_lead\<lparr>converted_date := Some (Timestamp 2024 7 1),
       kyb_submitted_date := Some (Timestamp 2024 6 20)\<rparr>) \<noteq> None \<and>
   get_journey_stage (empty_lead\<lparr>converted_date := Some (Timestamp 2024 7 1),
       kyb_submitted_date := Some (Timestamp 2024 6 20)\<rparr>) = ''Converted''"
  using journey_stage_priority [of "empty_lead\<lparr>converted_date := Some (Timestamp 2024 7 1),
       kyb_submitted_date := Some (Timestamp 2024 6 20)\<rparr>"]
  by simp

lemma journey_stage_examples:
  "get_journey_stage (add_readable_step (empty_lead\<lparr>onboarding_step := Some ''v3_final_step''\<rparr>))
     = ''Onboarding Completed'' \<and>
   get_journey_stage (add_readable_step
       (empty_lead\<lparr>onboarding_step := Some ''v2_business_details_step'',
                   created_date := Some (Timestamp 2024 6 1)\<rparr>))
     = ''Onboarding: Business Details'' \<and>
   get_journey_stage (add_readable_step (empty_lead\<lparr>created_date := Some (Timestamp 2024 6 1)\<rparr>))
     = ''Registered'' \<and>
   get_journey_stage (add_readable_step empty_lead) = ''Unknown''"
  by code_simp

section \<open>The step flags\<close>

lemma exclusive_sum:
  "distinct (concat lits) \<Longrightarrow>
     sum_list (map (\<lambda>steps. if t \<in> set steps then 1 else 0) lits) \<le> (1::int) \<and>
     (t \<notin> set (concat lits) \<longrightarrow>
        sum_list (map (\<lambda>steps. if t \<in> set steps then 1 else 0) lits) = (0::int))"
proof (induction lits)
  case Nil
  then show ?case by simp
next
  case (Cons a lits)
  then show ?case by auto
qed

lemma step_literals_distinct: "distinct (concat (map snd step_config))"
  by (simp add: step_config_def)

lemma step_flags_values:
  "map snd (step_flags x) = map (\<lambda>steps. check_step x steps) (map snd step_config)"
  by (simp add: step_flags_def split_beta)

lemma step_flags_sum: "sum_list (map snd (step_flags x)) \<le> 1"
proof (cases x)
  case None
  then show ?thesis by (simp add: step_flags_values check_step_def isna_def step_config_def)
next
  case (Some s)
  have "map snd (step_flags x)
      = map (\<lambda>steps. if py_strip s \<in> set steps then 1 else 0) (map snd step_config)"
    using Some by (simp add: step_flags_values check_step_def isna_def py_str_def)
  then show ?thesis
    using exclusive_sum [OF step_literals_distinct, of "py_strip s"] by simp
qed

lemma step_flags_binary: "set (map snd (step_flags x)) \<subseteq> {0, 1}"
  by (auto simp: step_flags_def check_step_def split: if_splits)

lemma step_flag_set:
  "(c, 1) \<in> set (step_flags x) \<longleftrightarrow>
     (\<exists>s steps. x = Some s \<and> (c, steps) \<in> set step_config \<and> py_strip s \<in> set steps)"
proof (cases x)
  case None
  then show ?thesis by (auto simp: step_flags_def check_step_def isna_def)
next
  case (Some s)
  have "(c, 1) \<in> set (step_flags (Some s)) \<longleftrightarrow>
      (\<exists>steps. (c, steps) \<in> set step_config \<and> py_strip s \<in> set steps)"
    by (force simp: step_flags_def check_step_def isna_def py_str_def image_iff
          split: if_splits)
  with Some show ?thesis by simp
qed

text \<open>
  Claim C9. The nine flags of a row are 0 or 1 and add up to at most 1. The flag of a
  column is 1 exactly when the step code is present and, with the whitespace at its ends
  removed, is one of the literals of that column; the literals of the nine columns are
  ten different texts, so no two columns share one. A missing step code gives nine
  zeros. The frame gets these flags row by row when it has the column
  \<open>onboarding_step\<close>, and \<open>KeyError\<close> stops the program otherwise.
\<close>

theorem step_flags_mutually_exclusive:
  "sum_list (map snd (step_flags x)) \<le> 1 \<and>
   set (map snd (step_flags x)) \<subseteq> {0, 1} \<and>
   map fst (step_flags x) = map fst step_config \<and> length step_config = 9 \<and>
   ((c, 1) \<in> set (step_flags x) \<longleftrightarrow>
      (\<exists>s steps. x = Some s \<and> (c, steps) \<in> set step_config \<and> py_strip s \<in> set steps)) \<and>
   distinct (concat (map snd step_config)) \<and>
   map snd (step_flags None) = [0, 0, 0, 0, 0, 0, 0, 0, 0] \<and>
   (case add_step_flags columns df of
      Inl e \<Rightarrow> ''onboarding_step'' \<notin> set columns
    | Inr flags \<Rightarrow> flags = map (\<lambda>r. step_flags (onboarding_step r)) df)"
proof (intro conjI)
  show "sum_list (map snd (step_flags x)) \<le> 1" by (rule step_flags_sum)
  show "set (map snd (step_flags x)) \<subseteq> {0, 1}" by (rule step_flags_binary)
  show "map fst (step_flags x) = map fst step_config"
    by (simp add: step_flags_def split_beta)
  show "length step_config = 9" by (simp add: step_config_def)
  show "(c, 1) \<in> set (step_flags x) \<longleftrightarrow>
      (\<exists>s steps. x = Some s \<and> (c, steps) \<in> set step_config \<and> py_strip s \<in> set steps)"
    by (rule step_flag_set)
  show "distinct (concat (map snd step_config))" by (rule step_literals_distinct)
  show "map snd (step_flags None) = [0, 0, 0, 0, 0, 0, 0, 0, 0]"
    by (simp add: step_flags_values check_step_def isna_def step_config_def)
  show "case add_step_flags columns df of
      Inl e \<Rightarrow> ''onboarding_step'' \<notin> set columns
    | Inr flags \<Rightarrow> flags = map (\<lambda>r. step_flags (onboarding_step r)) df"
    by (simp add: add_step_flags_def)
qed

theorem step_flags_mutually_exclusive_witness:
  "sum_list (map snd (step_flags (Some '' v3_final_step ''))) \<le> 1 \<and>
   map snd (step_flags (Some '' v3_final_step '')) = [0, 0, 0, 0, 0, 0, 0, 0, 1] \<and>
   (''final_step'', 1) \<in> set (step_flags (Some '' v3_final_step ''))"
proof -
  have e: "map snd (step_flags (Some '' v3_final_step '')) = [0, 0, 0, 0, 0, 0, 0, 0, 1]"
    by code_simp
  have f: "(''final_step'', 1) \<in> set (step_flags (Some '' v3_final_step ''))"
    by code_simp
  from step_flags_mutually_exclusive [of "Some '' v3_final_step ''"] e f
  show ?thesis by blast
qed

lemma step_flags_business_details:
  "map snd (step_flags (Some ''v2_business_details_step'')) = [0, 0, 0, 1, 0, 0, 0, 0, 0] \<and>
   map snd (step_flags (Some '' v3_final_step '')) = [0, 0, 0, 0, 0, 0, 0, 0, 1] \<and>
   map snd (step_flags (Some ''V2_FINAL_STEP'')) = [0, 0, 0, 0, 0, 0, 0, 0, 0]"
  by code_simp

end
